theory Spec2Isabelle
  imports Complex_Main "HOL-Library.AList" "HOL-Library.Multiset"
begin

section \<open>Data model\<close>

text \<open>
  An annotation payload is a \<^verbatim>\<open>List[Dict[str, Any]]\<close>: a list of JSON objects as Python
  holds them. A dict is the list of its items, each key once. A finite float is the rational
  it denotes; NaN and the infinities, which the JSONB column refuses, are left out.
\<close>

datatype jval =
    JNull
  | JBool bool
  | JInt int
  | JFloat rat
  | JStr string
  | JList "jval list"
  | JDict "(string \<times> jval) list"

type_synonym json_object = "(string \<times> jval) list"

text \<open>
  Python's \<^verbatim>\<open>==\<close> on such values. \<^verbatim>\<open>bool\<close> is a subclass of \<^verbatim>\<open>int\<close> and numbers are
  compared by value, so \<^verbatim>\<open>True == 1 == 1.0\<close>; two lists are equal when they have the same
  length and equal elements in order; two dicts are equal when they have the same keys with
  equal values, in whatever order the keys were inserted.
\<close>

fun num_val :: "jval \<Rightarrow> rat option" where
  "num_val (JBool b) = Some (if b then 1 else 0)"
| "num_val (JInt i) = Some (of_int i)"
| "num_val (JFloat q) = Some q"
| "num_val v = None"

fun py_eq :: "jval \<Rightarrow> jval \<Rightarrow> bool" where
  "py_eq (JList xs) (JList ys) = list_all2 py_eq xs ys"
| "py_eq (JDict xs) (JDict ys) =
     (length xs = length ys \<and>
      (\<forall>(k, v) \<in> set xs. \<exists>(k', w) \<in> set ys. k' = k \<and> py_eq v w))"
| "py_eq a b =
     (case (num_val a, num_val b) of
        (Some x, Some y) \<Rightarrow> x = y
      | (None, None) \<Rightarrow> a = b
      | _ \<Rightarrow> False)"

definition py_eq_data :: "json_object list \<Rightarrow> json_object list \<Rightarrow> bool" where
  "py_eq_data d1 d2 = list_all2 (\<lambda>a b. py_eq (JDict a) (JDict b)) d1 d2"

text \<open>
  The two tables of \<^verbatim>\<open>app/models\<close>. A timestamp is the value of the database server's
  \<^verbatim>\<open>now()\<close>, counted in ticks. The primary keys are called \<open>iid\<close> and \<open>aid\<close> here, since
  \<open>id\<close> is the identity function of HOL. The routers never look inside a payload, and the
  store is taken to give back the payload it was given.
\<close>

type_synonym timestamp = nat

record image =
  iid :: int
  filename :: string
  storage_path :: string
  public_url :: string
  created_at :: timestamp

record annotation =
  aid :: int
  image_id :: int
  data :: "json_object list"
  updated_at :: timestamp

text \<open>
  The Supabase bucket \<^verbatim>\<open>images\<close> maps a path to the stored bytes and their content type.
  The calls made to the storage service are recorded in order, so that "no call was made"
  can be stated; \<open>stdout\<close> holds what \<^verbatim>\<open>print\<close> wrote.
\<close>

datatype storage_call = StorageUpload string string | StorageRemove "string list"

record store =
  images :: "image list"
  annotations :: "annotation list"
  images_id_seq :: int
  annotations_id_seq :: int
  bucket :: "(string \<times> string \<times> string) list"
  storage_calls :: "storage_call list"
  stdout :: "string list"

definition empty_store :: "store" where
  "empty_store =
     \<lparr>images = [], annotations = [], images_id_seq = 1, annotations_id_seq = 1,
      bucket = [], storage_calls = [], stdout = []\<rparr>"

text \<open>
  What a request takes from outside the program: the configured Supabase URL, the value
  \<^verbatim>\<open>uuid.uuid4()\<close> returns, the database server's \<^verbatim>\<open>now()\<close> for the request's
  transaction, and whether the storage service raises on \<^verbatim>\<open>upload\<close> or on \<^verbatim>\<open>remove\<close>
  (\<open>Some msg\<close>: it raises an exception whose \<^verbatim>\<open>str\<close> is \<open>msg\<close>). A storage call that
  raises leaves the bucket as it was.
\<close>

record env =
  supabase_url :: string
  uuid4 :: string
  now :: timestamp
  upload_fault :: "string option"
  remove_fault :: "string option"

text \<open>
  Errors. \<open>HTTPException\<close> is the one the routers raise themselves. \<open>IndexError\<close> is
  Python's, \<open>IntegrityError\<close> and \<open>DataError\<close> are SQLAlchemy's; the routers catch none
  of the three, so the framework answers 500.
\<close>

datatype error =
    HTTPException int string
  | IndexError
  | IntegrityError
  | DataError

fun http_status :: "error \<Rightarrow> int" where
  "http_status (HTTPException code detail) = code"
| "http_status IndexError = 500"
| "http_status IntegrityError = 500"
| "http_status DataError = 500"

datatype response =
    Images "image list"
  | ImageRow image
  | StatusMessage string string
  | AnnotationData "json_object list"

section \<open>Python string operations used by the upload\<close>

text \<open>\<^verbatim>\<open>s.split(c)\<close> for a one-character separator: the pieces between the separators,
  never an empty list.\<close>

fun str_split :: "char \<Rightarrow> string \<Rightarrow> string list" where
  "str_split c [] = [[]]"
| "str_split c (x # xs) =
     (if x = c then [] # str_split c xs
      else (case str_split c xs of
              [] \<Rightarrow> [[x]]
            | w # ws \<Rightarrow> (x # w) # ws))"

text \<open>\<^verbatim>\<open>xs[-1]\<close>: the last element, \<^verbatim>\<open>IndexError\<close> on the empty list.\<close>

definition py_last :: "'a list \<Rightarrow> error + 'a" where
  "py_last xs = (case xs of [] \<Rightarrow> Inl IndexError | _ # _ \<Rightarrow> Inr (last xs))"

section \<open>The relational store\<close>

text \<open>
  A table is the list of its rows in the order the store scans them.
  \<^verbatim>\<open>query.filter(...).first()\<close> is the first row that matches.
\<close>

definition image_first :: "int \<Rightarrow> store \<Rightarrow> image option" where
  "image_first k s = find (\<lambda>i. iid i = k) (images s)"

definition annotation_first :: "int \<Rightarrow> store \<Rightarrow> annotation option" where
  "annotation_first k s = find (\<lambda>a. image_id a = k) (annotations s)"

text \<open>
  \<^verbatim>\<open>order_by(created_at.desc())\<close>. Among rows with the same \<open>created_at\<close> the store is free
  to choose; this model takes the reverse of the stable ascending sort.
\<close>

definition order_by_created_at_desc :: "image list \<Rightarrow> image list" where
  "order_by_created_at_desc xs = rev (sort_key created_at xs)"

text \<open>
  \<^verbatim>\<open>db.add(Image(...)); db.commit(); db.refresh(...)\<close>: the primary key comes from the
  table's sequence and \<open>created_at\<close> from the column's \<^verbatim>\<open>server_default=func.now()\<close>.
\<close>

definition insert_image :: "env \<Rightarrow> string \<Rightarrow> string \<Rightarrow> string \<Rightarrow> store \<Rightarrow> image \<times> store" where
  "insert_image e fname path url s =
     (let row = \<lparr>iid = images_id_seq s, filename = fname, storage_path = path,
                 public_url = url, created_at = now e\<rparr>
      in (row, s\<lparr>images := images s @ [row], images_id_seq := images_id_seq s + 1\<rparr>))"

text \<open>
  \<^verbatim>\<open>db.add(Annotation(image_id=..., data=...)); db.commit()\<close>. The column is declared
  \<^verbatim>\<open>ForeignKey("images.id")\<close>, so the store refuses a row whose \<open>image_id\<close> is the key of
  no Image row: the commit raises \<^verbatim>\<open>IntegrityError\<close> and the transaction is rolled back.
  The sequence has been advanced by then and is not rolled back.
\<close>

definition insert_annotation :: "env \<Rightarrow> int \<Rightarrow> json_object list \<Rightarrow> store \<Rightarrow> error option \<times> store" where
  "insert_annotation e k d s =
     (let row = \<lparr>aid = annotations_id_seq s, image_id = k, data = d, updated_at = now e\<rparr>;
          s1 = s\<lparr>annotations_id_seq := annotations_id_seq s + 1\<rparr>
      in if k \<in> iid ` set (images s)
         then (None, s1\<lparr>annotations := annotations s1 @ [row]\<rparr>)
         else (Some IntegrityError, s1))"

text \<open>
  \<^verbatim>\<open>existing.data = ...; db.commit()\<close>. At the flush the unit of work compares the value
  set with the value loaded, with Python's \<^verbatim>\<open>==\<close>, and issues an UPDATE only where the
  comparison fails; the column's \<^verbatim>\<open>onupdate=func.now()\<close> is part of that UPDATE. The row is
  addressed by its primary key.
\<close>

definition update_annotation :: "env \<Rightarrow> annotation \<Rightarrow> json_object list \<Rightarrow> store \<Rightarrow> store" where
  "update_annotation e existing d s =
     (if py_eq_data d (data existing) then s
      else s\<lparr>annotations :=
             map (\<lambda>a. if aid a = aid existing then a\<lparr>data := d, updated_at := now e\<rparr> else a)
                 (annotations s)\<rparr>)"

text \<open>\<^verbatim>\<open>db.query(Annotation).filter(Annotation.image_id == image_id).delete()\<close>: every
  matching row goes.\<close>

definition delete_annotations :: "int \<Rightarrow> store \<Rightarrow> store" where
  "delete_annotations k s = s\<lparr>annotations := filter (\<lambda>a. image_id a \<noteq> k) (annotations s)\<rparr>"

text \<open>
  \<^verbatim>\<open>db.delete(image); db.commit()\<close>. The foreign key of the annotations table has no
  cascade, so the store refuses to delete an Image row that an Annotation row still
  references.
\<close>

definition delete_image_row :: "image \<Rightarrow> store \<Rightarrow> error + store" where
  "delete_image_row img s =
     (if iid img \<in> image_id ` set (annotations s) then Inl IntegrityError
      else Inr (s\<lparr>images := filter (\<lambda>i. iid i \<noteq> iid img) (images s)\<rparr>))"

section \<open>The storage service\<close>

definition get_public_url :: "env \<Rightarrow> string \<Rightarrow> string" where
  "get_public_url e path = supabase_url e @ ''/storage/v1/object/public/images/'' @ path"

definition storage_upload :: "env \<Rightarrow> string \<Rightarrow> string \<Rightarrow> string \<Rightarrow> store \<Rightarrow> string option \<times> store" where
  "storage_upload e path content ctype s =
     (let s1 = s\<lparr>storage_calls := storage_calls s @ [StorageUpload path ctype]\<rparr>
      in case upload_fault e of
           Some msg \<Rightarrow> (Some msg, s1)
         | None \<Rightarrow> (None, s1\<lparr>bucket := AList.update path (content, ctype) (bucket s1)\<rparr>))"

definition storage_remove :: "env \<Rightarrow> string list \<Rightarrow> store \<Rightarrow> string option \<times> store" where
  "storage_remove e paths s =
     (let s1 = s\<lparr>storage_calls := storage_calls s @ [StorageRemove paths]\<rparr>
      in case remove_fault e of
           Some msg \<Rightarrow> (Some msg, s1)
         | None \<Rightarrow> (None, s1\<lparr>bucket := filter (\<lambda>(p, b). p \<notin> set paths) (bucket s1)\<rparr>))"

section \<open>The routers\<close>

text \<open>
  Each handler takes the store and returns its answer with the store it leaves. SQLAlchemy
  sends \<^verbatim>\<open>offset\<close> and \<^verbatim>\<open>limit\<close> to the store as they are, and the store rejects a
  negative one.
\<close>

definition get_images :: "int \<Rightarrow> int \<Rightarrow> store \<Rightarrow> (error + response) \<times> store" where
  "get_images skip limit s =
     (if skip < 0 \<or> limit < 0 then (Inl DataError, s)
      else (Inr (Images (take (nat limit) (drop (nat skip) (order_by_created_at_desc (images s))))), s))"

definition upload_image ::
  "env \<Rightarrow> string \<Rightarrow> string \<Rightarrow> string \<Rightarrow> store \<Rightarrow> (error + response) \<times> store" where
  "upload_image e fname ctype content s =
     (case py_last (str_split (CHR ''.'') fname) of
        Inl err \<Rightarrow> (Inl err, s)
      | Inr file_ext \<Rightarrow>
          (let file_path = uuid4 e @ ''.'' @ file_ext
           in case storage_upload e file_path content ctype s of
                (Some msg, s1) \<Rightarrow>
                  (Inl (HTTPException 500 (''Supabase Upload Failed: '' @ msg)), s1)
              | (None, s1) \<Rightarrow>
                  (let url = get_public_url e file_path;
                       (db_image, s2) = insert_image e fname file_path url s1
                   in (Inr (ImageRow db_image), s2))))"

definition delete_image :: "env \<Rightarrow> int \<Rightarrow> store \<Rightarrow> (error + response) \<times> store" where
  "delete_image e k s =
     (case image_first k s of
        None \<Rightarrow> (Inl (HTTPException 404 ''Image not found''), s)
      | Some img \<Rightarrow>
          (let s1 = (case storage_remove e [storage_path img] s of
                       (Some msg, s') \<Rightarrow>
                         s'\<lparr>stdout := stdout s' @ [''Warning: Failed to delete from storage: '' @ msg]\<rparr>
                     | (None, s') \<Rightarrow> s');
               s2 = delete_annotations k s1
           in case delete_image_row img s2 of
                Inl err \<Rightarrow> (Inl err, s1)
              | Inr s3 \<Rightarrow> (Inr (StatusMessage ''success'' ''Image deleted''), s3)))"

definition get_annotations :: "int \<Rightarrow> store \<Rightarrow> (error + response) \<times> store" where
  "get_annotations k s =
     (case annotation_first k s of
        None \<Rightarrow> (Inr (AnnotationData []), s)
      | Some a \<Rightarrow> (Inr (AnnotationData (data a)), s))"

definition save_annotations ::
  "env \<Rightarrow> int \<Rightarrow> json_object list \<Rightarrow> store \<Rightarrow> (error + response) \<times> store" where
  "save_annotations e k d s =
     (case annotation_first k s of
        Some existing \<Rightarrow>
          (Inr (StatusMessage ''success'' ''Annotations saved''), update_annotation e existing d s)
      | None \<Rightarrow>
          (case insert_annotation e k d s of
             (Some err, s1) \<Rightarrow> (Inl err, s1)
           | (None, s1) \<Rightarrow> (Inr (StatusMessage ''success'' ''Annotations saved''), s1)))"

section \<open>Requests and reachable stores\<close>

datatype request =
    GetImages int int
  | UploadImage string string string
  | DeleteImage int
  | GetAnnotations int
  | SaveAnnotations int "json_object list"

fun handle :: "env \<Rightarrow> request \<Rightarrow> store \<Rightarrow> (error + response) \<times> store" where
  "handle e (GetImages skip limit) s = get_images skip limit s"
| "handle e (UploadImage fname ctype content) s = upload_image e fname ctype content s"
| "handle e (DeleteImage k) s = delete_image e k s"
| "handle e (GetAnnotations k) s = get_annotations k s"
| "handle e (SaveAnnotations k d) s = save_annotations e k d s"

text \<open>The stores the service can be in: the empty one, and any store a request leaves.\<close>

inductive reachable :: "store \<Rightarrow> bool" where
  init: "reachable empty_store"
| step: "reachable s \<Longrightarrow> reachable (snd (handle e r s))"

text \<open>At most one Annotation row for each image.\<close>

definition one_annotation_per_image :: "store \<Rightarrow> bool" where
  "one_annotation_per_image s = distinct (map image_id (annotations s))"

text \<open>The Annotation rows of one image.\<close>

definition annotation_rows :: "int \<Rightarrow> store \<Rightarrow> annotation list" where
  "annotation_rows k s = filter (\<lambda>a. image_id a = k) (annotations s)"

text \<open>Every Annotation row references an Image row that exists.\<close>

definition referential_integrity :: "store \<Rightarrow> bool" where
  "referential_integrity s = (image_id ` set (annotations s) \<subseteq> iid ` set (images s))"

section \<open>Example inputs\<close>

text \<open>Concrete environments, payloads and stores, on which the theorems below are
  instantiated.\<close>

definition env_ok :: env where
  "env_ok = \<lparr>supabase_url = ''https://db.example'', uuid4 = ''6f1c'', now = 10,
             upload_fault = None, remove_fault = None\<rparr>"

definition env_fault :: env where
  "env_fault = env_ok\<lparr>upload_fault := Some ''timeout'', remove_fault := Some ''timeout''\<rparr>"

definition rect :: json_object where
  "rect = [(''type'', JStr ''rect''), (''x'', JInt 1)]"



definition store_a :: store where
  "store_a = snd (upload_image env_ok ''cat.png'' ''image/png'' ''PNG'' empty_store)"

definition store_b :: store where
  "store_b = snd (save_annotations env_ok 1 [rect] store_a)"


definition env_later :: env where
  "env_later = env_ok\<lparr>uuid4 := ''77aa'', now := 12\<rparr>"

definition env_same_tick :: env where
  "env_same_tick = env_ok\<lparr>uuid4 := ''77aa''\<rparr>"

definition store_two :: store where
  "store_two = snd (upload_image env_later ''dog.png'' ''image/png'' ''PNG'' store_a)"

definition store_tie :: store where
  "store_tie = snd (upload_image env_same_tick ''dog.png'' ''image/png'' ''PNG'' store_a)"

definition cat_row :: image where
  "cat_row = \<lparr>iid = 1, filename = ''cat.png'', storage_path = ''6f1c.png'',
      public_url = ''https://db.example/storage/v1/object/public/images/6f1c.png'',
      created_at = 10\<rparr>"

definition dog_row :: "timestamp \<Rightarrow> image" where
  "dog_row t = \<lparr>iid = 2, filename = ''dog.png'', storage_path = ''77aa.png'',
      public_url = ''https://db.example/storage/v1/object/public/images/77aa.png'',
      created_at = t\<rparr>"

section \<open>Auxiliary facts\<close>

lemma str_split_not_Nil: "str_split c xs \<noteq> []"
  by (induction xs) (auto split: list.splits)

lemma str_split_no_sep: "c \<notin> set xs \<Longrightarrow> str_split c xs = [xs]"
  by (induction xs) auto

lemma py_last_str_split: "py_last (str_split c xs) = Inr (last (str_split c xs))"
  using str_split_not_Nil [of c xs] by (simp add: py_last_def split: list.splits)

lemma image_first_None: "k \<notin> iid ` set (images s) \<Longrightarrow> image_first k s = None"
  by (auto simp: image_first_def find_None_iff)

lemma image_first_Some: "k \<in> iid ` set (images s) \<Longrightarrow> \<exists>img. image_first k s = Some img \<and> iid img = k"
  unfolding image_first_def by (cases "find (\<lambda>i. iid i = k) (images s)") (auto simp: find_None_iff find_Some_iff)

lemma annotation_first_None: "annotation_first k s = None \<longleftrightarrow> k \<notin> image_id ` set (annotations s)"
  by (auto simp: annotation_first_def find_None_iff)

lemma annotation_first_rows:
  "annotation_first k s = (case annotation_rows k s of [] \<Rightarrow> None | a # _ \<Rightarrow> Some a)"
proof -
  have "find P xs = (case filter P xs of [] \<Rightarrow> None | a # _ \<Rightarrow> Some a)" for P and xs :: "annotation list"
    by (induction xs) auto
  then show ?thesis by (simp add: annotation_first_def annotation_rows_def)
qed

lemma delete_image_found:
  assumes "image_first k s = Some img"
  shows "delete_image e k s =
     (Inr (StatusMessage ''success'' ''Image deleted''),
      (case remove_fault e of
         None \<Rightarrow> s\<lparr>bucket := filter (\<lambda>(p, b). p \<noteq> storage_path img) (bucket s)\<rparr>
       | Some msg \<Rightarrow> s\<lparr>stdout := stdout s @ [''Warning: Failed to delete from storage: '' @ msg]\<rparr>)
      \<lparr>storage_calls := storage_calls s @ [StorageRemove [storage_path img]],
       annotations := filter (\<lambda>a. image_id a \<noteq> k) (annotations s),
       images := filter (\<lambda>i. iid i \<noteq> k) (images s)\<rparr>)"
proof -
  have k: "iid img = k"
    using assms by (auto simp: image_first_def find_Some_iff)
  show ?thesis
    using assms k
    by (cases "remove_fault e")
       (auto simp: delete_image_def storage_remove_def delete_annotations_def
          delete_image_row_def Let_def)
qed



lemma save_annotations_existing:
  assumes "annotation_first k s = Some a"
  shows "save_annotations e k d s =
           (Inr (StatusMessage ''success'' ''Annotations saved''), update_annotation e a d s)"
  using assms by (simp add: save_annotations_def)




lemma save_annotations_new:
  assumes "annotation_first k s = None" and "k \<in> iid ` set (images s)"
  shows "save_annotations e k d s =
           (Inr (StatusMessage ''success'' ''Annotations saved''),
            s\<lparr>annotations_id_seq := annotations_id_seq s + 1,
              annotations := annotations s @
                [\<lparr>aid = annotations_id_seq s, image_id = k, data = d, updated_at = now e\<rparr>]\<rparr>)"
  using assms by (simp add: save_annotations_def insert_annotation_def Let_def)

lemma save_annotations_refused:
  assumes "annotation_first k s = None" and "k \<notin> iid ` set (images s)"
  shows "save_annotations e k d s =
           (Inl IntegrityError, s\<lparr>annotations_id_seq := annotations_id_seq s + 1\<rparr>)"
  using assms by (simp add: save_annotations_def insert_annotation_def Let_def)


lemma upload_image_annotations:
  "annotations (snd (upload_image e fname ctype content s)) = annotations s"
  by (cases "upload_fault e")
     (simp_all add: upload_image_def py_last_str_split storage_upload_def insert_image_def Let_def)

lemma delete_image_one_annotation:
  "one_annotation_per_image s \<Longrightarrow> one_annotation_per_image (snd (delete_image e k s))"
proof (cases "image_first k s")
  case None
  assume "one_annotation_per_image s"
  then show ?thesis using None by (simp add: delete_image_def)
next
  case (Some img)
  assume "one_annotation_per_image s"
  then show ?thesis
    by (cases "remove_fault e")
       (simp_all add: delete_image_found [OF Some] one_annotation_per_image_def distinct_map_filter)
qed

lemma update_annotation_image_ids:
  "map image_id (annotations (update_annotation e a d s)) = map image_id (annotations s)"
  by (simp add: update_annotation_def comp_def)

lemma save_annotations_one_annotation:
  assumes "one_annotation_per_image s"
  shows "one_annotation_per_image (snd (save_annotations e k d s))"
proof (cases "annotation_first k s")
  case (Some a)
  then show ?thesis
    using assms
    by (simp add: save_annotations_existing one_annotation_per_image_def update_annotation_image_ids)
next
  case None
  then have fresh: "k \<notin> image_id ` set (annotations s)"
    by (simp add: annotation_first_None)
  show ?thesis
  proof (cases "k \<in> iid ` set (images s)")
    case True
    then show ?thesis
      using assms fresh None by (simp add: save_annotations_new one_annotation_per_image_def)
  next
    case False
    then show ?thesis
      using assms None by (simp add: save_annotations_refused one_annotation_per_image_def)
  qed
qed

lemma handle_one_annotation:
  assumes "one_annotation_per_image s"
  shows "one_annotation_per_image (snd (handle e r s))"
proof (cases r)
  case (GetImages skip limit)
  then show ?thesis using assms by (simp add: get_images_def)
next
  case (UploadImage fname ctype content)
  then show ?thesis
    using assms by (simp add: one_annotation_per_image_def upload_image_annotations)
next
  case (DeleteImage k)
  then show ?thesis using assms by (simp add: delete_image_one_annotation)
next
  case (GetAnnotations k)
  then show ?thesis using assms by (simp add: get_annotations_def split: option.splits)
next
  case (SaveAnnotations k d)
  then show ?thesis using assms by (simp add: save_annotations_one_annotation)
qed


lemma upload_image_images:
  "set (images s) \<subseteq> set (images (snd (upload_image e fname ctype content s)))"
  by (cases "upload_fault e")
     (auto simp: upload_image_def py_last_str_split storage_upload_def insert_image_def Let_def)

lemma handle_referential_integrity:
  assumes "referential_integrity s"
  shows "referential_integrity (snd (handle e r s))"
proof (cases r)
  case (GetImages skip limit)
  then show ?thesis using assms by (simp add: get_images_def)
next
  case (UploadImage fname ctype content)
  then show ?thesis
    using assms upload_image_images [of s e fname ctype content]
    by (auto simp: referential_integrity_def upload_image_annotations)
next
  case (DeleteImage k)
  show ?thesis
  proof (cases "image_first k s")
    case None
    then show ?thesis using assms DeleteImage by (simp add: delete_image_def)
  next
    case (Some img)
    then show ?thesis
      using assms DeleteImage
      by (cases "remove_fault e")
         (auto simp: delete_image_found [OF Some] referential_integrity_def)
  qed
next
  case (GetAnnotations k)
  then show ?thesis using assms by (simp add: get_annotations_def split: option.splits)
next
  case (SaveAnnotations k d)
  show ?thesis
  proof (cases "annotation_first k s")
    case (Some a)
    have "image_id ` set (annotations (update_annotation e a d s)) = image_id ` set (annotations s)"
      using update_annotation_image_ids [of e a d s] by (metis set_map)
    moreover have "images (update_annotation e a d s) = images s"
      by (simp add: update_annotation_def)
    ultimately show ?thesis
      using assms SaveAnnotations Some
      by (simp add: save_annotations_existing referential_integrity_def)
  next
    case None
    show ?thesis
    proof (cases "k \<in> iid ` set (images s)")
      case True
      then show ?thesis
        using assms SaveAnnotations None
        by (simp add: save_annotations_new referential_integrity_def)
    next
      case False
      then show ?thesis
        using assms SaveAnnotations None
        by (simp add: save_annotations_refused referential_integrity_def)
    qed
  qed
qed

lemma reachable_referential_integrity: "reachable s \<Longrightarrow> referential_integrity s"
proof (induction rule: reachable.induct)
  case init
  show ?case by (simp add: referential_integrity_def empty_store_def)
next
  case (step s e r)
  then show ?case by (simp add: handle_referential_integrity)
qed


lemma order_by_created_at_desc_sorted:
  "sorted_wrt (\<lambda>a b. created_at b \<le> created_at a) (order_by_created_at_desc xs)"
proof -
  have "sorted (map created_at (sort_key created_at xs))" by simp
  then have "sorted_wrt (\<lambda>a b. created_at a \<le> created_at b) (sort_key created_at xs)"
    by (simp add: sorted_wrt_map)
  then show ?thesis
    by (simp add: order_by_created_at_desc_def sorted_wrt_rev)
qed

lemma order_by_created_at_desc_strict:
  assumes "distinct (map created_at xs)"
  shows "sorted_wrt (\<lambda>a b. created_at b < created_at a) (order_by_created_at_desc xs)"
proof -
  have "mset (map created_at (sort_key created_at xs)) = mset (map created_at xs)"
    by simp
  then have "distinct (map created_at (sort_key created_at xs))"
    using assms by (metis mset_eq_imp_distinct_iff)
  moreover have "sorted (map created_at (sort_key created_at xs))" by simp
  ultimately have "sorted_wrt (<) (map created_at (sort_key created_at xs))"
    by (simp add: strict_sorted_iff)
  then have "sorted_wrt (\<lambda>a b. created_at a < created_at b) (sort_key created_at xs)"
    by (simp add: sorted_wrt_map)
  then show ?thesis
    by (simp add: order_by_created_at_desc_def sorted_wrt_rev)
qed

lemma store_a_eq:
  "store_a = \<lparr>images = [cat_row], annotations = [], images_id_seq = 2, annotations_id_seq = 1,
      bucket = [(''6f1c.png'', ''PNG'', ''image/png'')],
      storage_calls = [StorageUpload ''6f1c.png'' ''image/png''], stdout = []\<rparr>"
  by (simp add: store_a_def upload_image_def py_last_def storage_upload_def insert_image_def
      get_public_url_def empty_store_def env_ok_def cat_row_def Let_def)

lemma store_b_eq:
  "store_b = \<lparr>images = [cat_row],
      annotations = [\<lparr>aid = 1, image_id = 1, data = [rect], updated_at = 10\<rparr>],
      images_id_seq = 2, annotations_id_seq = 2,
      bucket = [(''6f1c.png'', ''PNG'', ''image/png'')],
      storage_calls = [StorageUpload ''6f1c.png'' ''image/png''], stdout = []\<rparr>"
  by (simp add: store_b_def store_a_eq save_annotations_def annotation_first_def
      insert_annotation_def env_ok_def cat_row_def Let_def)




lemma store_two_eq:
  "store_two = \<lparr>images = [cat_row, dog_row 12], annotations = [], images_id_seq = 3,
      annotations_id_seq = 1,
      bucket = [(''6f1c.png'', ''PNG'', ''image/png''), (''77aa.png'', ''PNG'', ''image/png'')],
      storage_calls = [StorageUpload ''6f1c.png'' ''image/png'', StorageUpload ''77aa.png'' ''image/png''],
      stdout = []\<rparr>"
  by (simp add: store_two_def store_a_eq upload_image_def py_last_def storage_upload_def
      insert_image_def get_public_url_def env_later_def env_ok_def dog_row_def Let_def)

lemma store_tie_eq:
  "store_tie = \<lparr>images = [cat_row, dog_row 10], annotations = [], images_id_seq = 3,
      annotations_id_seq = 1,
      bucket = [(''6f1c.png'', ''PNG'', ''image/png''), (''77aa.png'', ''PNG'', ''image/png'')],
      storage_calls = [StorageUpload ''6f1c.png'' ''image/png'', StorageUpload ''77aa.png'' ''image/png''],
      stdout = []\<rparr>"
  by (simp add: store_tie_def store_a_eq upload_image_def py_last_def storage_upload_def
      insert_image_def get_public_url_def env_same_tick_def env_ok_def dog_row_def Let_def)

lemma store_a_reachable: "reachable store_a"
  using reachable.step [OF reachable.init, of env_ok "UploadImage ''cat.png'' ''image/png'' ''PNG''"]
  by (simp add: store_a_def)

lemma store_tie_reachable: "reachable store_tie"
  using reachable.step [OF store_a_reachable, of env_same_tick "UploadImage ''dog.png'' ''image/png'' ''PNG''"]
  by (simp add: store_tie_def)


section \<open>The properties\<close>

text \<open>
  C1. When the storage service raises on the upload, \<open>upload_image\<close> answers with the
  \<open>HTTPException\<close> of status 500 that carries the cause, and no Image row is created: the
  store it leaves is the store it found, but for the record of the call that was attempted
  (the tables, both sequences, the bucket and the printed output are the same).
\<close>

theorem upload_image_storage_failure:
  assumes "upload_fault e = Some msg"
  shows "fst (upload_image e fname ctype content s) =
           Inl (HTTPException 500 (''Supabase Upload Failed: '' @ msg)) \<and>
         snd (upload_image e fname ctype content s) =
           s\<lparr>storage_calls := storage_calls s @
               [StorageUpload (uuid4 e @ ''.'' @ last (str_split (CHR ''.'') fname)) ctype]\<rparr>"
  using assms by (simp add: upload_image_def py_last_str_split storage_upload_def Let_def)

theorem upload_image_storage_failure_witness:
  "upload_fault env_fault = Some ''timeout'' \<and>
   fst (upload_image env_fault ''dog.png'' ''image/png'' ''PNG'' store_b) =
     Inl (HTTPException 500 ''Supabase Upload Failed: timeout'') \<and>
   snd (upload_image env_fault ''dog.png'' ''image/png'' ''PNG'' store_b) =
     store_b\<lparr>storage_calls := storage_calls store_b @ [StorageUpload ''6f1c.png'' ''image/png'']\<rparr>"
proof -
  have h: "upload_fault env_fault = Some ''timeout''"
    by (simp add: env_fault_def env_ok_def)
  show ?thesis
    using h upload_image_storage_failure [OF h, of "''dog.png''" "''image/png''" "''PNG''" store_b]
    by (simp add: env_fault_def env_ok_def)
qed

text \<open>
  C2. When an Image row with the key exists, \<open>delete_image\<close> returns the success marker
  and leaves no Image row with that key and no Annotation row with that \<open>image_id\<close>. The
  environment \<open>e\<close> is arbitrary, so this holds whether the removal from the bucket
  succeeded or raised.
\<close>

theorem delete_image_complete:
  assumes "k \<in> iid ` set (images s)"
  shows "fst (delete_image e k s) = Inr (StatusMessage ''success'' ''Image deleted'') \<and>
         k \<notin> iid ` set (images (snd (delete_image e k s))) \<and>
         k \<notin> image_id ` set (annotations (snd (delete_image e k s)))"
proof -
  obtain img where "image_first k s = Some img"
    using image_first_Some [OF assms] by blast
  then show ?thesis
    by (cases "remove_fault e") (auto simp: delete_image_found)
qed

theorem delete_image_complete_witness:
  "1 \<in> iid ` set (images store_b) \<and>
   fst (delete_image env_ok 1 store_b) = Inr (StatusMessage ''success'' ''Image deleted'') \<and>
   1 \<notin> iid ` set (images (snd (delete_image env_ok 1 store_b))) \<and>
   1 \<notin> image_id ` set (annotations (snd (delete_image env_ok 1 store_b))) \<and>
   fst (delete_image env_fault 1 store_b) = Inr (StatusMessage ''success'' ''Image deleted'') \<and>
   1 \<notin> iid ` set (images (snd (delete_image env_fault 1 store_b))) \<and>
   1 \<notin> image_id ` set (annotations (snd (delete_image env_fault 1 store_b)))"
proof -
  have h: "1 \<in> iid ` set (images store_b)"
    by (simp add: store_b_eq cat_row_def)
  show ?thesis
    using h delete_image_complete [OF h, of env_ok] delete_image_complete [OF h, of env_fault]
    by simp
qed

text \<open>
  C3. When an Image row with the key exists and the storage service raises on the removal,
  \<open>delete_image\<close> still returns the success marker, not an error: the Annotation rows and
  the Image row of the key are deleted, the bucket is as it was, and the failure is only
  printed.
\<close>

theorem delete_image_storage_failure:
  assumes "k \<in> iid ` set (images s)" and "remove_fault e = Some msg"
  shows "fst (delete_image e k s) = Inr (StatusMessage ''success'' ''Image deleted'') \<and>
         images (snd (delete_image e k s)) = filter (\<lambda>i. iid i \<noteq> k) (images s) \<and>
         annotations (snd (delete_image e k s)) = filter (\<lambda>a. image_id a \<noteq> k) (annotations s) \<and>
         bucket (snd (delete_image e k s)) = bucket s \<and>
         stdout (snd (delete_image e k s)) =
           stdout s @ [''Warning: Failed to delete from storage: '' @ msg]"
proof -
  obtain img where "image_first k s = Some img"
    using image_first_Some [OF assms(1)] by blast
  then show ?thesis
    using assms(2) by (simp add: delete_image_found)
qed

theorem delete_image_storage_failure_witness:
  "1 \<in> iid ` set (images store_b) \<and> remove_fault env_fault = Some ''timeout'' \<and>
   fst (delete_image env_fault 1 store_b) = Inr (StatusMessage ''success'' ''Image deleted'') \<and>
   images (snd (delete_image env_fault 1 store_b)) = [] \<and>
   annotations (snd (delete_image env_fault 1 store_b)) = [] \<and>
   bucket (snd (delete_image env_fault 1 store_b)) = [(''6f1c.png'', ''PNG'', ''image/png'')] \<and>
   stdout (snd (delete_image env_fault 1 store_b)) =
     [''Warning: Failed to delete from storage: timeout'']"
proof -
  have h: "1 \<in> iid ` set (images store_b)"
    by (simp add: store_b_eq cat_row_def)
  have f: "remove_fault env_fault = Some ''timeout''"
    by (simp add: env_fault_def env_ok_def)
  show ?thesis
    using h f delete_image_storage_failure [OF h f]
    by (simp add: store_b_eq cat_row_def)
qed

text \<open>
  C4. When no Image row has the key, \<open>delete_image\<close> answers with the \<open>HTTPException\<close>
  of status 404 and returns the store as it found it: no row is touched and no call to the
  storage service is recorded.
\<close>

theorem delete_image_not_found:
  "k \<notin> iid ` set (images s) \<Longrightarrow>
   delete_image e k s = (Inl (HTTPException 404 ''Image not found''), s)"
  by (simp add: delete_image_def image_first_None)

theorem delete_image_not_found_witness:
  "2 \<notin> iid ` set (images store_b) \<and>
   delete_image env_ok 2 store_b = (Inl (HTTPException 404 ''Image not found''), store_b)"
proof -
  have h: "2 \<notin> iid ` set (images store_b)"
    by (simp add: store_b_eq cat_row_def)
  show ?thesis
    using h delete_image_not_found [OF h, of env_ok] by simp
qed







text \<open>
  C7. Every request preserves "at most one Annotation row for each image": if it holds of
  the store before, it holds of the store the request leaves.
\<close>

theorem handle_preserves_one_annotation:
  "one_annotation_per_image s \<Longrightarrow> one_annotation_per_image (snd (handle e r s))"
  by (rule handle_one_annotation)

theorem handle_preserves_one_annotation_witness:
  "one_annotation_per_image store_b \<and>
   one_annotation_per_image (snd (handle env_later (SaveAnnotations 1 [rect, rect]) store_b))"
proof -
  have h: "one_annotation_per_image store_b"
    by (simp add: one_annotation_per_image_def store_b_eq)
  show ?thesis
    using h handle_preserves_one_annotation [OF h, of env_later "SaveAnnotations 1 [rect, rect]"]
    by simp
qed

text \<open>
  C8. \<open>get_annotations\<close> never answers with an error and never changes the store. When
  the key has no Annotation row it returns the empty list; when it has one, it returns the
  data of the (first) row as it is.
\<close>

theorem get_annotations_empty_or_data:
  "(annotation_rows k s = [] \<longrightarrow> get_annotations k s = (Inr (AnnotationData []), s)) \<and>
   (\<forall>a rest. annotation_rows k s = a # rest \<longrightarrow>
        get_annotations k s = (Inr (AnnotationData (data a)), s))"
  by (simp add: get_annotations_def annotation_first_rows)

theorem get_annotations_empty_or_data_witness:
  "annotation_rows 2 store_b = [] \<and>
   get_annotations 2 store_b = (Inr (AnnotationData []), store_b) \<and>
   annotation_rows 1 store_b = [\<lparr>aid = 1, image_id = 1, data = [rect], updated_at = 10\<rparr>] \<and>
   get_annotations 1 store_b = (Inr (AnnotationData [rect]), store_b)"
proof -
  have h2: "annotation_rows 2 store_b = []"
    by (simp add: annotation_rows_def store_b_eq)
  have h1: "annotation_rows 1 store_b = [\<lparr>aid = 1, image_id = 1, data = [rect], updated_at = 10\<rparr>]"
    by (simp add: annotation_rows_def store_b_eq)
  show ?thesis
    using h1 h2 get_annotations_empty_or_data [of 2 store_b] get_annotations_empty_or_data [of 1 store_b]
    by simp
qed

text \<open>
  As C9 is stated, with a strictly descending order, it fails: two uploads committed at the
  same tick give two rows with the same \<open>created_at\<close>, and the page holding both is not
  strictly descending.
\<close>

theorem get_images_page_counterexample:
  "get_images 0 2 store_tie = (Inr (Images [dog_row 10, cat_row]), store_tie) \<and>
   \<not> sorted_wrt (\<lambda>a b. created_at b < created_at a) [dog_row 10, cat_row]"
  by (simp add: get_images_def order_by_created_at_desc_def store_tie_eq cat_row_def dog_row_def)

text \<open>
  C9, as amended. For non-negative \<open>skip\<close> and \<open>limit\<close>, \<open>get_images\<close> returns the page
  that skips \<open>skip\<close> rows of the newest-first ordering of all Image rows and takes at most
  \<open>limit\<close>. The page is in non-increasing order of \<open>created_at\<close>; it is strictly
  descending when no two Image rows share a \<open>created_at\<close>.
\<close>

theorem get_images_page:
  assumes "0 \<le> skip" and "0 \<le> limit"
  shows "\<exists>page.
           get_images skip limit s = (Inr (Images page), s) \<and>
           page = take (nat limit) (drop (nat skip) (order_by_created_at_desc (images s))) \<and>
           mset (order_by_created_at_desc (images s)) = mset (images s) \<and>
           int (length page) \<le> limit \<and>
           sorted_wrt (\<lambda>a b. created_at b \<le> created_at a) page \<and>
           (distinct (map created_at (images s)) \<longrightarrow>
              sorted_wrt (\<lambda>a b. created_at b < created_at a) page)"
proof -
  let ?all = "order_by_created_at_desc (images s)"
  let ?page = "take (nat limit) (drop (nat skip) ?all)"
  have "get_images skip limit s = (Inr (Images ?page), s)"
    using assms by (simp add: get_images_def)
  moreover have "mset ?all = mset (images s)"
    by (simp add: order_by_created_at_desc_def)
  moreover have "int (length ?page) \<le> limit"
    using assms(2) by simp
  moreover have "sorted_wrt (\<lambda>a b. created_at b \<le> created_at a) ?page"
    by (intro sorted_wrt_take sorted_wrt_drop order_by_created_at_desc_sorted)
  moreover have "sorted_wrt (\<lambda>a b. created_at b < created_at a) ?page"
    if "distinct (map created_at (images s))"
    by (intro sorted_wrt_take sorted_wrt_drop order_by_created_at_desc_strict that)
  ultimately show ?thesis by blast
qed

theorem get_images_page_witness:
  "(0::int) \<le> 1 \<and> (0::int) \<le> 5 \<and> distinct (map created_at (images store_two)) \<and>
   (\<exists>page.
      get_images 1 5 store_two = (Inr (Images page), store_two) \<and>
      page = [cat_row] \<and>
      mset (order_by_created_at_desc (images store_two)) = mset (images store_two) \<and>
      int (length page) \<le> 5 \<and>
      sorted_wrt (\<lambda>a b. created_at b \<le> created_at a) page \<and>
      sorted_wrt (\<lambda>a b. created_at b < created_at a) page)"
proof -
  have a: "(0::int) \<le> 1" and b: "(0::int) \<le> 5"
    by simp_all
  have d: "distinct (map created_at (images store_two))"
    by (simp add: store_two_eq cat_row_def dog_row_def)
  have g: "take (nat 5) (drop (nat 1) (order_by_created_at_desc (images store_two))) = [cat_row]"
    by (simp add: order_by_created_at_desc_def store_two_eq cat_row_def dog_row_def)
  obtain page where
    "get_images 1 5 store_two = (Inr (Images page), store_two)"
    "page = take (nat 5) (drop (nat 1) (order_by_created_at_desc (images store_two)))"
    "mset (order_by_created_at_desc (images store_two)) = mset (images store_two)"
    "int (length page) \<le> 5"
    "sorted_wrt (\<lambda>a b. created_at b \<le> created_at a) page"
    "distinct (map created_at (images store_two)) \<longrightarrow>
       sorted_wrt (\<lambda>a b. created_at b < created_at a) page"
    using get_images_page [OF a b, of store_two] by blast
  then show ?thesis
    using a b d g by metis
qed

text \<open>
  C10. When the filename contains no \<open>.\<close>, deriving the extension does not fail and
  yields the whole filename: the path sent to the storage service, and stored in the new
  Image row when the upload succeeds, is the UUID, a \<open>.\<close>, and the whole filename.
\<close>

theorem upload_image_no_dot:
  assumes "CHR ''.'' \<notin> set fname"
  shows "py_last (str_split (CHR ''.'') fname) = Inr fname \<and>
         storage_calls (snd (upload_image e fname ctype content s)) =
              storage_calls s @ [StorageUpload (uuid4 e @ ''.'' @ fname) ctype] \<and>
         (upload_fault e = None \<longrightarrow>
            (\<exists>img. fst (upload_image e fname ctype content s) = Inr (ImageRow img) \<and>
                   storage_path img = uuid4 e @ ''.'' @ fname \<and>
                   img \<in> set (images (snd (upload_image e fname ctype content s)))))"
  using assms
  by (cases "upload_fault e")
     (simp_all add: upload_image_def py_last_def str_split_no_sep storage_upload_def
        insert_image_def Let_def)

theorem upload_image_no_dot_witness:
  "CHR ''.'' \<notin> set ''README'' \<and> upload_fault env_ok = None \<and>
   py_last (str_split (CHR ''.'') ''README'') = Inr ''README'' \<and>
   (\<exists>img. fst (upload_image env_ok ''README'' ''text/plain'' ''hello'' store_a) = Inr (ImageRow img) \<and>
          storage_path img = ''6f1c.README'' \<and>
          img \<in> set (images (snd (upload_image env_ok ''README'' ''text/plain'' ''hello'' store_a))))"
proof -
  have h: "CHR ''.'' \<notin> set ''README''" by simp
  have f: "upload_fault env_ok = None" by (simp add: env_ok_def)
  show ?thesis
    using h f upload_image_no_dot [OF h, of env_ok "''text/plain''" "''hello''" store_a]
    by (simp add: env_ok_def)
qed

end
